theory Spec2Isabelle
  imports Complex_Main
begin

section \<open>Errors\<close>

text \<open>
  Python exceptions raised by the modelled functions.  A \<open>ValueError\<close> and a plain
  \<open>Exception\<close> carry the message of the \<open>raise\<close> statement, which is what tells the
  parameter checks of a function apart from its later failures.
\<close>

datatype error =
    ValueError string
  | AssertionError
  | IndexError
  | AttributeError
  | TypeError
  | Exception string
  | OtherError

section \<open>Arrays\<close>

text \<open>
  A one-dimensional \<open>numpy.ndarray\<close> is a view of memory: \<open>items\<close> are the samples it
  shows, in index order, and \<open>stride\<close> is \<open>a.strides[0]\<close> counted in items, the distance in
  memory from one sample to the next.  \<open>np.arange(20)[::2]\<close> shows \<open>0, 2, \<dots>, 18\<close> with
  stride 2, and \<open>x[::-1]\<close> has stride \<open>-1\<close>.  A newly allocated array (\<open>np.empty\<close>,
  \<open>np.arange\<close>, \<open>a.copy()\<close>) has stride 1; a slice \<open>a[:k]\<close> keeps the stride of \<open>a\<close>.
\<close>

record 'a ndarray =
  items :: "'a list"
  stride :: int

definition array :: "'a list \<Rightarrow> 'a ndarray" where
  "array xs = \<lparr>items = xs, stride = 1\<rparr>"

text \<open>
  The flag \<open>a.flags.c_contiguous\<close>: the samples lie side by side in memory.  numpy sets
  it for every array of at most one sample, whatever the stride.
\<close>

definition c_contiguous :: "'a ndarray \<Rightarrow> bool" where
  "c_contiguous a = (stride a = 1 \<or> length (items a) \<le> 1)"

definition ndarray_copy :: "'a ndarray \<Rightarrow> 'a ndarray" where
  "ndarray_copy a = array (items a)"

text \<open>\<open>np.ravel(a)\<close> returns \<open>a\<close> itself when it is contiguous and a copy otherwise.\<close>

definition ravel :: "'a ndarray \<Rightarrow> 'a ndarray" where
  "ravel a = (if c_contiguous a then a else ndarray_copy a)"

definition msg_not_contiguous :: string where
  "msg_not_contiguous = ''ndarray is not contiguous''"

definition msg_strides :: string where
  "msg_strides =
     ''strides is incompatible with shape of requested array and size of buffer''"

text \<open>
  \<open>np.ndarray.__new__(np.ndarray, strides=(st0, st1), shape=(n, m), buffer=buf,
  dtype=buf.dtype)\<close>, the strides counted in items.  numpy takes the memory of \<open>buf\<close>
  through the buffer protocol, which an array that is not contiguous refuses with a
  \<open>ValueError\<close>; it then checks that the strides stay inside that memory.  Entry \<open>(i, j)\<close>
  of the new array is the item at offset \<open>i * st0 + j * st1\<close>.
\<close>

definition ndarray_new ::
  "'a ndarray \<Rightarrow> nat \<Rightarrow> nat \<Rightarrow> int \<Rightarrow> int \<Rightarrow> error + 'a list list" where
  "ndarray_new buf n m st0 st1 =
     (let len = int (length (items buf));
          up = max 0 ((int n - 1) * st0) + max 0 ((int m - 1) * st1);
          lo = min 0 ((int n - 1) * st0) + min 0 ((int m - 1) * st1)
      in if c_contiguous buf
         then (if n \<noteq> 0 \<and> m \<noteq> 0 \<and> (lo < 0 \<or> len \<le> up)
               then Inl (ValueError msg_strides)
               else Inr (map (\<lambda>i. map (\<lambda>j. items buf ! nat (int i * st0 + int j * st1))
                                     [0..<m])
                             [0..<n]))
         else Inl (ValueError msg_not_contiguous))"

section \<open>Framing: \<open>segment_axis\<close> (odin/preprocessing/signal.py)\<close>

text \<open>
  The signal is a one-dimensional array.  \<open>axis\<close> is \<open>0\<close> (the default, which \<open>stft\<close>
  uses) or \<open>None\<close>.  \<open>frame_length\<close> and \<open>hop_length\<close> are Python integers.  \<open>end\<close> and
  \<open>endmode\<close> range over their documented values, and \<open>endvalue\<close> is a value of the
  array's \<open>dtype\<close>.
\<close>

datatype axis = AxisNone | Axis0

datatype end_policy = Cut | Pad | Wrap

datatype end_mode = Pre | Post

definition msg_overlap_100 :: string where
  "msg_overlap_100 = ''frames cannot overlap by more than 100%''"

definition msg_overlap_neg :: string where
  "msg_overlap_neg = ''overlap must be nonnegative and length mustbe positive''"

text \<open>The message of the third \<open>ValueError\<close>, without its quotation marks.\<close>

definition msg_not_enough :: string where
  "msg_not_enough =
     ''Not enough data points to segment array in cut mode; try pad or wrap''"

text \<open>The start of the message of numpy's broadcasting error.\<close>

definition msg_broadcast :: string where
  "msg_broadcast = ''could not broadcast input array''"

text \<open>
  \<open>b[..., lo:hi] = src\<close> for a slice of \<open>k\<close> elements: numpy accepts a source of
  \<open>k\<close> elements, repeats a source of one element, and raises \<open>ValueError\<close> otherwise.
\<close>

definition assign_slice :: "nat \<Rightarrow> 'a list \<Rightarrow> error + 'a list" where
  "assign_slice k src =
     (if length src = k then Inr src
      else if length src = 1 then Inr (replicate k (hd src))
      else Inl (ValueError msg_broadcast))"

text \<open>
  The edge policy applied to \<open>a\<close> (of length \<open>len\<close>), once \<open>roundup\<close> and \<open>rounddown\<close>
  are known: \<open>'cut'\<close> keeps the view \<open>a[..., :rounddown]\<close>, with the stride of \<open>a\<close>;
  \<open>'pad'\<close> and \<open>'wrap'\<close> fill a new array \<open>b\<close> of \<open>roundup\<close> samples.
\<close>

definition segment_extend ::
  "'a ndarray \<Rightarrow> int \<Rightarrow> int \<Rightarrow> int \<Rightarrow> end_policy \<Rightarrow> 'a \<Rightarrow> end_mode
     \<Rightarrow> error + 'a ndarray" where
  "segment_extend a len roundup rounddown end endvalue endmode =
     (case end of
        Cut \<Rightarrow> Inr (a\<lparr>items := take (nat rounddown) (items a)\<rparr>)
      | Pad \<Rightarrow>
          (case endmode of
             Pre \<Rightarrow> Inr (array (items a @ replicate (nat (roundup - len)) endvalue))
           | Post \<Rightarrow> Inr (array (replicate (nat (roundup - len)) endvalue @ items a)))
      | Wrap \<Rightarrow>
          (case assign_slice (nat (roundup - len)) (take (nat (roundup - len)) (items a)) of
             Inl e \<Rightarrow> Inl e
           | Inr w \<Rightarrow>
               (case endmode of
                  Pre \<Rightarrow> Inr (array (items a @ w))
                | Post \<Rightarrow> Inr (array (w @ items a)))))"

text \<open>
  The body of \<open>if length < frame_length or (length - frame_length) % (frame_length - overlap)\<close>:
  it returns the array \<open>a\<close> that the framing then works on.
\<close>

definition segment_fit ::
  "'a ndarray \<Rightarrow> int \<Rightarrow> int \<Rightarrow> end_policy \<Rightarrow> 'a \<Rightarrow> end_mode \<Rightarrow> error + 'a ndarray" where
  "segment_fit a frame_length overlap end endvalue endmode =
     (let len = int (length (items a));
          roundup =
            (if len > frame_length
             then frame_length
                    + (1 + (len - frame_length) div (frame_length - overlap))
                      * (frame_length - overlap)
             else frame_length);
          rounddown =
            (if len > frame_length
             then frame_length
                    + ((len - frame_length) div (frame_length - overlap))
                      * (frame_length - overlap)
             else 0)
      in if \<not> (rounddown < len \<and> len < roundup) then Inl AssertionError
         else if \<not> (roundup = rounddown + (frame_length - overlap)
                     \<or> (roundup = frame_length \<and> rounddown = 0))
         then Inl AssertionError
         else segment_extend a len roundup rounddown end endvalue endmode)"

text \<open>
  The end of \<open>segment_axis\<close>: \<open>n\<close> frames of \<open>frame_length\<close> samples as a strided view of
  \<open>a\<close>, with \<open>s = a.strides[axis]\<close>.  Only a \<open>TypeError\<close> of \<open>np.ndarray.__new__\<close> is
  caught; the handler builds the view on a copy of \<open>a\<close>, with the strides computed from
  the same \<open>s\<close>.
\<close>

definition strided_frames :: "'a ndarray \<Rightarrow> nat \<Rightarrow> int \<Rightarrow> int \<Rightarrow> error + 'a list list" where
  "strided_frames a n frame_length overlap =
     (let s = stride a
      in case ndarray_new a n (nat frame_length) ((frame_length - overlap) * s) s of
           Inl e \<Rightarrow>
             (if e = TypeError
              then ndarray_new (ndarray_copy a) n (nat frame_length)
                     ((frame_length - overlap) * s) s
              else Inl e)
         | Inr frames \<Rightarrow> Inr frames)"

definition segment_axis ::
  "'a ndarray \<Rightarrow> int \<Rightarrow> int \<Rightarrow> axis \<Rightarrow> end_policy \<Rightarrow> 'a \<Rightarrow> end_mode
     \<Rightarrow> error + 'a list list" where
  "segment_axis a0 frame_length hop_length axis end endvalue endmode =
     (let a = (case axis of AxisNone \<Rightarrow> ravel a0 | Axis0 \<Rightarrow> a0);
          len = int (length (items a));
          overlap = frame_length - hop_length
      in if overlap \<ge> frame_length then Inl (ValueError msg_overlap_100)
         else if overlap < 0 \<or> frame_length \<le> 0 then Inl (ValueError msg_overlap_neg)
         else
           (case (if len < frame_length
                     \<or> (len - frame_length) mod (frame_length - overlap) \<noteq> 0
                  then segment_fit a frame_length overlap end endvalue endmode
                  else Inr a) of
              Inl e \<Rightarrow> Inl e
            | Inr a' \<Rightarrow>
                (let len' = int (length (items a'))
                 in if len' = 0 then Inl (ValueError msg_not_enough)
                    else if \<not> (len' \<ge> frame_length) then Inl AssertionError
                    else if \<not> ((len' - frame_length) mod (frame_length - overlap) = 0)
                    then Inl AssertionError
                    else
                      strided_frames a'
                        (nat (1 + (len' - frame_length) div (frame_length - overlap)))
                        frame_length overlap)))"

text \<open>The two parameter checks at the head of \<open>segment_axis\<close>.\<close>

definition invalid_parameter :: "error + 'b \<Rightarrow> bool" where
  "invalid_parameter r =
     (r = Inl (ValueError msg_overlap_100) \<or> r = Inl (ValueError msg_overlap_neg))"

section \<open>Pre-emphasis: \<open>pre_emphasis\<close> (signal.py and speech.py)\<close>

text \<open>
  The signal is one-dimensional (\<open>s.ndim == 1\<close>) or a matrix, given by its samples.
  The samples and the coefficient are values of the result's \<open>dtype\<close>; the function
  uses one multiplication and one subtraction per sample and nothing else of the
  arithmetic.
\<close>

datatype 'a signal = Signal1 "'a list" | Signal2 "'a list list"

text \<open>
  \<open>np.append(s[0], s[1:] - coeff * s[:-1])\<close>, where \<open>s[0]\<close> raises \<open>IndexError\<close> on an
  empty signal, and \<open>s - np.c_[s[:, :1], s[:, :-1]] * coeff\<close> row by row.
\<close>

definition pre_emphasis :: "'a::{minus,times} signal \<Rightarrow> 'a \<Rightarrow> error + 'a signal" where
  "pre_emphasis s coeff =
     (case s of
        Signal1 xs \<Rightarrow>
          (if xs = [] then Inl IndexError
           else Inr (Signal1 (hd xs # map2 (\<lambda>a b. a - coeff * b) (tl xs) (butlast xs))))
      | Signal2 rows \<Rightarrow>
          Inr (Signal2 (map (\<lambda>r. map2 (\<lambda>a b. a - b * coeff) r (take 1 r @ butlast r)) rows)))"

section \<open>Decibel scaling: \<open>power2db\<close> (signal.py)\<close>






section \<open>Delta features: \<open>compute_delta\<close> (signal.py)\<close>

definition msg_width :: string where
  "msg_width = ''width must be an odd integer >= 3''"

definition msg_order :: string where
  "msg_order = ''order must be a positive integer''"

definition msg_pad_empty :: string where
  "msg_pad_empty = ''can't extend empty axis''"

definition half_length :: "int \<Rightarrow> int" where
  "half_length width = 1 + width div 2"

text \<open>\<open>np.arange(start, stop, -1.)\<close> for whole numbers \<open>start\<close> and \<open>stop\<close>.\<close>

definition arange_down :: "int \<Rightarrow> int \<Rightarrow> real list" where
  "arange_down start stop = map (\<lambda>k. real_of_int (start - int k)) [0..<nat (start - stop)]"

text \<open>
  The kernel: \<open>window = np.arange(half_length - 1., -half_length, -1.)\<close>, then
  \<open>window /= np.sum(np.abs(window)**2)\<close>.
\<close>

definition delta_window :: "int \<Rightarrow> real list" where
  "delta_window width =
     (let window = arange_down (half_length width - 1) (- half_length width)
      in map (\<lambda>w. w / (\<Sum>v\<leftarrow>window. \<bar>v\<bar> ^ 2)) window)"

text \<open>\<open>np.pad(row, (width, width), mode='edge')\<close> on a row with at least one entry.\<close>

definition pad_edge :: "nat \<Rightarrow> real list \<Rightarrow> real list" where
  "pad_edge width row = replicate width (hd row) @ row @ replicate width (last row)"

text \<open>
  \<open>scipy.signal.lfilter(b, 1, x)\<close>: the causal filter \<open>y[n] = b[0] x[n] + b[1] x[n-1] + \<dots>\<close>
  started from rest, the samples before \<open>x[0]\<close> counting as zero.
\<close>

definition lfilter :: "real list \<Rightarrow> real list \<Rightarrow> real list" where
  "lfilter b x =
     map (\<lambda>n. \<Sum>k\<leftarrow>[0..<min (Suc n) (length b)]. b ! k * x ! (n - k)) [0..<length x]"

text \<open>
  \<open>xs[- lo : - hi]\<close> for \<open>lo, hi > 0\<close>: Python counts both bounds from the end and clips
  them at the start of the list.
\<close>

definition slice_from_end :: "'a list \<Rightarrow> int \<Rightarrow> int \<Rightarrow> 'a list" where
  "slice_from_end xs lo hi =
     (let n = int (length xs);
          start = max 0 (n - lo);
          stop = max 0 (n - hi)
      in take (nat (stop - start)) (drop (nat start) xs))"

text \<open>The loop \<open>for _ in range(order)\<close>: every pass filters the output of the pass before.\<close>

fun delta_passes :: "real list \<Rightarrow> nat \<Rightarrow> real list list \<Rightarrow> real list list list" where
  "delta_passes window 0 delta_x = []"
| "delta_passes window (Suc k) delta_x =
     (let y = map (lfilter window) delta_x in y # delta_passes window k y)"

text \<open>
  \<open>compute_delta(data, width, order, axis=-1, trim)\<close> on a matrix \<open>data\<close> of shape
  \<open>(d, t)\<close>, given by its rows.  The final \<open>astype('float32')\<close> keeps the shape.
\<close>

definition compute_delta ::
  "real list list \<Rightarrow> int \<Rightarrow> int \<Rightarrow> bool \<Rightarrow> error + real list list list" where
  "compute_delta data width order trim =
     (if width < 3 \<or> width mod 2 \<noteq> 1 then Inl (ValueError msg_width)
      else if order \<le> 0 then Inl (ValueError msg_order)
      else if data \<noteq> [] \<and> hd data = [] then Inl (ValueError msg_pad_empty)
      else
        (let window = delta_window width;
             delta_x = map (pad_edge (nat width)) data;
             all_deltas = delta_passes window (nat order) delta_x
         in if trim
            then Inr (map (map (\<lambda>row. slice_from_end row
                                        (half_length width + int (length (hd data)))
                                        (half_length width)))
                        all_deltas)
            else Inr all_deltas))"

section \<open>Properties of the framing\<close>

lemma msgs_distinct:
  "msg_broadcast \<noteq> msg_overlap_100" "msg_broadcast \<noteq> msg_overlap_neg"
  "msg_not_enough \<noteq> msg_overlap_100" "msg_not_enough \<noteq> msg_overlap_neg"
  "msg_not_contiguous \<noteq> msg_overlap_100" "msg_not_contiguous \<noteq> msg_overlap_neg"
  "msg_strides \<noteq> msg_overlap_100" "msg_strides \<noteq> msg_overlap_neg"
  by (simp_all add: msg_broadcast_def msg_overlap_100_def msg_overlap_neg_def
        msg_not_enough_def msg_not_contiguous_def msg_strides_def)

lemma nth_window:
  assumes "k + m \<le> length xs"
  shows "map (\<lambda>j. xs ! (k + j)) [0..<m] = take m (drop k xs)"
  using assms by (intro nth_equalityI) simp_all

lemma ndarray_new_rows:
  assumes "stride buf = 1" "0 < n" "0 < m" "0 < hop"
      and "(n - 1) * hop + m \<le> length (items buf)"
  shows "ndarray_new buf n m (int hop) 1
           = Inr (map (\<lambda>i. take m (drop (i * hop) (items buf))) [0..<n])"
proof -
  have c: "c_contiguous buf" using assms(1) by (simp add: c_contiguous_def)
  have up: "max 0 ((int n - 1) * int hop) + max 0 ((int m - 1) * 1)
              = int ((n - 1) * hop + (m - 1))"
    using assms(2,3) by simp
  have lo: "min 0 ((int n - 1) * int hop) + min 0 ((int m - 1) * 1) = 0"
    using assms(2,3) by simp
  have fits: "\<not> int (length (items buf)) \<le> int ((n - 1) * hop + (m - 1))"
    using assms(3,5) by linarith
  have row: "map (\<lambda>j. items buf ! nat (int i * int hop + int j * 1)) [0..<m]
               = take m (drop (i * hop) (items buf))" if "i < n" for i
  proof -
    have "i \<le> n - 1" using that by linarith
    hence "i * hop \<le> (n - 1) * hop" by (rule mult_le_mono1)
    hence le: "i * hop + m \<le> length (items buf)" using assms(5) by linarith
    have "nat (int i * int hop + int j * 1) = i * hop + j" for j
      by (simp add: nat_add_distrib nat_mult_distrib)
    thus ?thesis using nth_window[OF le] by simp
  qed
  have rows: "map (\<lambda>i. map (\<lambda>j. items buf ! nat (int i * int hop + int j * 1)) [0..<m])
                [0..<n]
              = map (\<lambda>i. take m (drop (i * hop) (items buf))) [0..<n]"
  proof (rule map_cong[OF refl])
    fix i assume "i \<in> set [0..<n]"
    hence "i < n" by simp
    thus "map (\<lambda>j. items buf ! nat (int i * int hop + int j * 1)) [0..<m]
            = take m (drop (i * hop) (items buf))" by (rule row)
  qed
  show ?thesis
    unfolding ndarray_new_def Let_def up lo rows
    using c fits by simp
qed

lemma segment_fit_cut:
  assumes "0 < hop" "hop \<le> fl" "fl \<le> int (length (items a))"
      and "(int (length (items a)) - fl) mod hop \<noteq> 0"
  shows "segment_fit a fl (fl - hop) Cut ev em
           = Inr (a\<lparr>items := take (nat (fl + ((int (length (items a)) - fl) div hop) * hop))
                                 (items a)\<rparr>)"
proof -
  let ?L = "int (length (items a))"
  let ?q = "(?L - fl) div hop"
  have ne: "?L \<noteq> fl" using assms(4) by auto
  hence gt: "?L > fl" using assms(3) by simp
  have d: "?L - fl = ?q * hop + (?L - fl) mod hop" by simp
  have m1: "0 < (?L - fl) mod hop" using assms(1,4)
    by (metis less_le pos_mod_sign)
  have m2: "(?L - fl) mod hop < hop" using assms(1) by simp
  have lo: "fl + ?q * hop < ?L" using d m1 by linarith
  have e: "(1 + ?q) * hop = ?q * hop + hop" by (simp add: algebra_simps)
  have hi: "?L < fl + (1 + ?q) * hop" unfolding e using d m2 by linarith
  show ?thesis
    using gt lo hi e by (simp add: segment_fit_def segment_extend_def Let_def)
qed

lemma strided_frames_rows:
  assumes "stride a = 1" "0 < hop" "0 < fl" "0 \<le> q"
      and "int (length (items a)) = fl + q * hop"
  shows "strided_frames a (nat (1 + q)) fl (fl - hop)
           = Inr (map (\<lambda>i. take (nat fl) (drop (i * nat hop) (items a))) [0..<nat (1 + q)])"
proof -
  have n: "0 < nat (1 + q)" using assms(4) by simp
  have "int ((nat (1 + q) - 1) * nat hop + nat fl) = q * hop + fl"
    using assms(2,3,4) by (simp add: nat_diff_distrib')
  hence len: "(nat (1 + q) - 1) * nat hop + nat fl \<le> length (items a)"
    using assms(5) by linarith
  have new: "ndarray_new a (nat (1 + q)) (nat fl) (int (nat hop)) 1
               = Inr (map (\<lambda>i. take (nat fl) (drop (i * nat hop) (items a)))
                        [0..<nat (1 + q)])"
    using assms(1) n _ _ len by (rule ndarray_new_rows) (use assms(2,3) in simp_all)
  have h: "int (nat hop) = hop" using assms(2) by simp
  show ?thesis
    unfolding strided_frames_def Let_def assms(1)
    using new h by simp
qed

lemma segment_axis_cut_value:
  assumes "stride a = 1" "0 < hop" "hop \<le> fl" "fl \<le> int (length (items a))"
  shows "segment_axis a fl hop Axis0 Cut ev em
           = Inr (map (\<lambda>i. take (nat fl) (drop (i * nat hop) (items a)))
                    [0..<nat (1 + (int (length (items a)) - fl) div hop)])"
proof -
  let ?L = "int (length (items a))"
  let ?q = "(?L - fl) div hop"
  have fl0: "0 < fl" using assms by simp
  have q0: "0 \<le> ?q" using assms by (simp add: pos_imp_zdiv_nonneg_iff)
  have d: "?L - fl = ?q * hop + (?L - fl) mod hop" by simp
  show ?thesis
  proof (cases "(?L - fl) mod hop = 0")
    case True
    have L: "?L = fl + ?q * hop" using d True by linarith
    have sf: "strided_frames a (nat (1 + ?q)) fl (fl - hop)
                = Inr (map (\<lambda>i. take (nat fl) (drop (i * nat hop) (items a)))
                         [0..<nat (1 + ?q)])"
      using assms(1,2) fl0 q0 L by (rule strided_frames_rows)
    have "items a \<noteq> []" using assms fl0 by auto
    then show ?thesis using True assms fl0 sf
      by (simp add: segment_axis_def Let_def)
  next
    case False
    let ?rd = "fl + ?q * hop"
    let ?a' = "a\<lparr>items := take (nat ?rd) (items a)\<rparr>"
    have fit: "segment_fit a fl (fl - hop) Cut ev em = Inr ?a'"
      using segment_fit_cut[OF assms(2,3,4) False] .
    have m1: "0 \<le> (?L - fl) mod hop" using assms(2) by simp
    have rdL: "?rd \<le> ?L" using d m1 by linarith
    have qh: "0 \<le> ?q * hop" using q0 assms(2) by simp
    have len: "int (length (items ?a')) = ?rd" using rdL qh fl0 by simp
    have st: "stride ?a' = 1" using assms(1) by simp
    have sf: "strided_frames ?a' (nat (1 + ?q)) fl (fl - hop)
                = Inr (map (\<lambda>i. take (nat fl) (drop (i * nat hop) (items ?a')))
                         [0..<nat (1 + ?q)])"
      using st assms(2) fl0 q0 len by (rule strided_frames_rows)
    have rows: "map (\<lambda>i. take (nat fl) (drop (i * nat hop) (items ?a'))) [0..<nat (1 + ?q)]
              = map (\<lambda>i. take (nat fl) (drop (i * nat hop) (items a))) [0..<nat (1 + ?q)]"
    proof (rule map_cong[OF refl])
      fix i assume "i \<in> set [0..<nat (1 + ?q)]"
      hence i: "int i \<le> ?q" using q0 by auto
      have "int i * hop \<le> ?q * hop" using i assms(2) by (simp add: mult_right_mono)
      hence "int (i * nat hop) + fl \<le> ?rd" using assms(2) by simp
      hence le: "i * nat hop + nat fl \<le> nat ?rd" using fl0 by linarith
      show "take (nat fl) (drop (i * nat hop) (items ?a'))
            = take (nat fl) (drop (i * nat hop) (items a))"
        using le by (simp add: drop_take)
    qed
    have m0: "(?rd - fl) mod hop = 0" by simp
    have dv: "(?rd - fl) div hop = ?q" using assms(2) by simp
    have ge: "fl \<le> ?rd" using qh by simp
    have ne: "?rd \<noteq> 0" using qh fl0 by linarith
    have tail: "(let len' = int (length (items ?a'))
                 in if len' = 0 then Inl (ValueError msg_not_enough)
                    else if \<not> (len' \<ge> fl) then Inl AssertionError
                    else if \<not> ((len' - fl) mod (fl - (fl - hop)) = 0)
                    then Inl AssertionError
                    else strided_frames ?a' (nat (1 + (len' - fl) div (fl - (fl - hop))))
                           fl (fl - hop))
                = Inr (map (\<lambda>i. take (nat fl) (drop (i * nat hop) (items a)))
                         [0..<nat (1 + ?q)])"
      unfolding Let_def len using m0 dv ge ne sf rows by simp
    have c1: "(fl \<le> fl - hop) = False" using assms(2) by simp
    have c2: "(fl - hop < 0 \<or> fl \<le> 0) = False" using assms(3) fl0 by simp
    have c3: "(?L < fl \<or> (?L - fl) mod (fl - (fl - hop)) \<noteq> 0) = True"
      using False by simp
    show ?thesis
      unfolding segment_axis_def
      apply (simp only: Let_def axis.case c1 c2 c3 if_False if_True fit sum.case)
      apply (rule tail[unfolded Let_def])
      done
  qed
qed

text \<open>
  On a contiguous signal of length \<open>L \<ge> frame_length\<close>, with parameters that pass the
  checks, the \<open>'cut'\<close> policy gives \<open>1 + (L - frame_length) div hop_length\<close> frames, frame
  \<open>i\<close> being the \<open>frame_length\<close> samples from \<open>i * hop_length\<close> on.
\<close>

lemma segment_axis_cut_contiguous:
  assumes "0 < hop_length" "hop_length \<le> frame_length" "frame_length \<le> int (length xs)"
  shows "\<exists>frames.
           segment_axis (array xs) frame_length hop_length Axis0 Cut endvalue endmode
             = Inr frames
         \<and> int (length frames) = 1 + (int (length xs) - frame_length) div hop_length
         \<and> (\<forall>i<length frames.
               frames ! i = take (nat frame_length) (drop (i * nat hop_length) xs)
             \<and> int (length (frames ! i)) = frame_length)"
proof -
  let ?L = "int (length xs)"
  let ?n = "nat (1 + (?L - frame_length) div hop_length)"
  let ?fr = "map (\<lambda>i. take (nat frame_length) (drop (i * nat hop_length) xs)) [0..<?n]"
  have fl0: "0 < frame_length" using assms by simp
  have q0: "0 \<le> (?L - frame_length) div hop_length"
    using assms by (simp add: pos_imp_zdiv_nonneg_iff)
  have v: "segment_axis (array xs) frame_length hop_length Axis0 Cut endvalue endmode = Inr ?fr"
    using segment_axis_cut_value[of "array xs" hop_length frame_length endvalue endmode] assms
    by (simp add: array_def)
  have n: "int (length ?fr) = 1 + (?L - frame_length) div hop_length"
    using q0 by simp
  have rows: "?fr ! i = take (nat frame_length) (drop (i * nat hop_length) xs)
              \<and> int (length (?fr ! i)) = frame_length" if i: "i < length ?fr" for i
  proof -
    have i': "i < ?n" using i by simp
    have r: "?fr ! i = take (nat frame_length) (drop (i * nat hop_length) xs)"
      using i' by simp
    have "int i \<le> (?L - frame_length) div hop_length" using i' q0 by linarith
    hence "int i * hop_length \<le> ((?L - frame_length) div hop_length) * hop_length"
      using assms(1) by (simp add: mult_right_mono)
    also have "\<dots> \<le> ?L - frame_length"
      using assms(1) by (metis div_mult_mod_eq le_add_same_cancel1 pos_mod_sign)
    finally have "int (i * nat hop_length) + frame_length \<le> ?L" using assms(1) by simp
    hence "i * nat hop_length + nat frame_length \<le> length xs" using fl0 by linarith
    hence "length (take (nat frame_length) (drop (i * nat hop_length) xs)) = nat frame_length"
      by simp
    thus ?thesis using r fl0 by simp
  qed
  show ?thesis using v n rows by blast
qed

lemma segment_axis_cut_2000:
  "\<exists>frames. segment_axis (array (replicate 2000 (0::real))) 400 160 Axis0 Cut 0 Post
               = Inr frames
      \<and> length frames = 11 \<and> length (frames ! 10) = 400"
proof -
  obtain frames where
    f: "segment_axis (array (replicate 2000 (0::real))) 400 160 Axis0 Cut 0 Post = Inr frames"
    and n: "int (length frames) = 1 + (int (length (replicate 2000 (0::real))) - 400) div 160"
    and r: "\<forall>i<length frames.
               frames ! i = take (nat 400) (drop (i * nat 160) (replicate 2000 (0::real)))
             \<and> int (length (frames ! i)) = 400"
    using segment_axis_cut_contiguous[of 160 400 "replicate 2000 (0::real)" 0 Post]
    by auto
  have n': "length frames = 11" using n by simp
  hence "int (length (frames ! 10)) = 400" using r by simp
  thus ?thesis using f n' by simp
qed

text \<open>
  Claim C1.  \<open>segment_axis(signal, frame_length, hop_length, end='cut')\<close> on the
  one-dimensional signal \<open>np.arange(20)[::2]\<close> (the ten samples \<open>0, 2, \<dots>, 18\<close>, stride 2)
  with \<open>frame_length = 4\<close> and \<open>hop_length = 2\<close>: the length \<open>10 \<ge> 4\<close> admits framing
  and the claim promises \<open>1 + (10 - 4) div 2 = 4\<close> frames of 4 samples.  The code raises
  the \<open>ValueError\<close> of \<open>np.ndarray.__new__\<close> on a buffer that is not contiguous: its
  handler, which would frame a copy of the signal, catches \<open>TypeError\<close> only.
\<close>

theorem segment_axis_cut_not_contiguous:
  "segment_axis \<lparr>items = [0, 2, 4, 6, 8, 10, 12, 14, 16, 18 :: int], stride = 2\<rparr>
     4 2 Axis0 Cut 0 Post
   = Inl (ValueError msg_not_contiguous)"
  by (simp add: segment_axis_def Let_def strided_frames_def ndarray_new_def c_contiguous_def)

text \<open>
  With \<open>axis=None\<close> the same signal goes through \<open>np.ravel\<close>, which copies it, and the
  four frames come out.
\<close>

lemma segment_axis_cut_ravel:
  "segment_axis \<lparr>items = [0, 2, 4, 6, 8, 10, 12, 14, 16, 18 :: int], stride = 2\<rparr>
     4 2 AxisNone Cut 0 Post
   = Inr [[0, 2, 4, 6], [4, 6, 8, 10], [8, 10, 12, 14], [12, 14, 16, 18]]"
  by (simp add: segment_axis_def Let_def strided_frames_def ndarray_new_def c_contiguous_def
        ravel_def ndarray_copy_def array_def upt_rec)

lemma assign_slice_not_invalid: "\<not> invalid_parameter (assign_slice k src)"
  by (simp add: invalid_parameter_def assign_slice_def msgs_distinct)

lemma segment_extend_not_invalid:
  "\<not> invalid_parameter (segment_extend a len ru rd e ev em)"
proof (cases e)
  case Cut
  then show ?thesis by (simp add: segment_extend_def invalid_parameter_def)
next
  case Pad
  then show ?thesis by (cases em) (simp_all add: segment_extend_def invalid_parameter_def)
next
  case Wrap
  show ?thesis
  proof (cases "assign_slice (nat (ru - len)) (take (nat (ru - len)) (items a))")
    case (Inl x)
    then show ?thesis
      using Wrap assign_slice_not_invalid[of "nat (ru - len)" "take (nat (ru - len)) (items a)"]
      by (simp add: segment_extend_def invalid_parameter_def)
  next
    case (Inr w)
    then show ?thesis
      using Wrap by (cases em) (simp_all add: segment_extend_def invalid_parameter_def)
  qed
qed

lemma guarded_not_invalid:
  "\<not> invalid_parameter X \<Longrightarrow>
   \<not> invalid_parameter (if c1 then Inl AssertionError else if c2 then Inl AssertionError else X)"
  by (simp add: invalid_parameter_def)

lemma segment_fit_not_invalid:
  "\<not> invalid_parameter (segment_fit a fl ov e ev em)"
  unfolding segment_fit_def Let_def
  by (rule guarded_not_invalid) (rule segment_extend_not_invalid)

lemma fit_or_keep_not_invalid:
  "\<not> invalid_parameter (if c then segment_fit a fl ov e ev em else Inr a)"
  using segment_fit_not_invalid[of a fl ov e ev em] by (simp add: invalid_parameter_def)

lemma ndarray_new_not_invalid: "\<not> invalid_parameter (ndarray_new buf n m st0 st1)"
  unfolding ndarray_new_def Let_def
  by (simp add: invalid_parameter_def msgs_distinct)

lemma strided_frames_not_invalid: "\<not> invalid_parameter (strided_frames a n fl ov)"
proof (cases "ndarray_new a n (nat fl) ((fl - ov) * stride a) (stride a)")
  case (Inl e)
  have "e \<noteq> ValueError msg_overlap_100 \<and> e \<noteq> ValueError msg_overlap_neg"
    using ndarray_new_not_invalid[of a n "nat fl" "(fl - ov) * stride a" "stride a"] Inl
    by (simp add: invalid_parameter_def)
  then show ?thesis
    using Inl ndarray_new_not_invalid[of "ndarray_copy a" n "nat fl" "(fl - ov) * stride a"
                "stride a"]
    by (simp add: strided_frames_def Let_def invalid_parameter_def)
next
  case (Inr frames)
  then show ?thesis by (simp add: strided_frames_def Let_def invalid_parameter_def)
qed

lemma framing_not_invalid:
  "\<not> invalid_parameter X \<Longrightarrow>
   \<not> invalid_parameter
       (if c1 then Inl (ValueError msg_not_enough)
        else if c2 then Inl AssertionError
        else if c3 then Inl AssertionError else X)"
  by (simp add: invalid_parameter_def msgs_distinct)

lemma case_not_invalid:
  assumes "\<not> invalid_parameter X" and "\<And>a'. \<not> invalid_parameter (f a')"
  shows "\<not> invalid_parameter (case X of Inl e \<Rightarrow> Inl e | Inr a' \<Rightarrow> f a')"
  using assms by (cases X) (simp_all add: invalid_parameter_def)

text \<open>
  Claim C4 (as amended).  \<open>segment_axis\<close> accepts exactly the parameters with
  \<open>frame_length > 0\<close> and \<open>0 < hop_length \<le> frame_length\<close>, that is an overlap
  \<open>frame_length - hop_length\<close> in \<open>[0, frame_length)\<close>: every other call fails with one of
  the two parameter \<open>ValueError\<close>s, whatever the signal and the edge policy, and no call
  within these bounds raises either of them.
\<close>

theorem segment_axis_parameter_check:
  "invalid_parameter (segment_axis a frame_length hop_length axis end endvalue endmode)
     \<longleftrightarrow> \<not> (0 < frame_length \<and> 0 < hop_length \<and> hop_length \<le> frame_length)"
proof (cases "0 < frame_length \<and> 0 < hop_length \<and> hop_length \<le> frame_length")
  case True
  have c1: "(frame_length \<le> frame_length - hop_length) = False" using True by simp
  have c2: "(frame_length - hop_length < 0 \<or> frame_length \<le> 0) = False" using True by simp
  have "\<not> invalid_parameter (segment_axis a frame_length hop_length axis end endvalue endmode)"
    unfolding segment_axis_def Let_def
    apply (simp only: c1 c2 if_False)
    apply (rule case_not_invalid)
     apply (rule fit_or_keep_not_invalid)
    apply (rule framing_not_invalid)
    apply (rule strided_frames_not_invalid)
    done
  thus ?thesis using True by simp
next
  case False
  hence "frame_length \<le> frame_length - hop_length
         \<or> (frame_length - hop_length < 0 \<or> frame_length \<le> 0)" by linarith
  hence "invalid_parameter (segment_axis a frame_length hop_length axis end endvalue endmode)"
    unfolding segment_axis_def Let_def invalid_parameter_def by auto
  thus ?thesis using False by simp
qed

theorem segment_axis_parameter_check_witness:
  "invalid_parameter (segment_axis (array [1, 2, 3 :: int]) 2 3 Axis0 Pad 0 Pre)
   \<and> \<not> invalid_parameter (segment_axis (array [1, 2, 3 :: int]) 2 1 Axis0 Pad 0 Pre)"
  using segment_axis_parameter_check[of "array [1, 2, 3 :: int]" 2 3 Axis0 Pad 0 Pre]
        segment_axis_parameter_check[of "array [1, 2, 3 :: int]" 2 1 Axis0 Pad 0 Pre]
  by simp

text \<open>
  The bounds as the claim C4 states them (\<open>0 \<le> hop_length < frame_length\<close>) are not the
  code's: \<open>hop_length = 0\<close> is refused and \<open>hop_length = frame_length\<close> is accepted.
\<close>

theorem segment_axis_bounds_counterexample:
  "segment_axis (array [1, 2, 3, 4, 5, 6, 7, 8 :: int]) 4 0 Axis0 Cut 0 Post
     = Inl (ValueError msg_overlap_100)
   \<and> segment_axis (array [1, 2, 3, 4, 5, 6, 7, 8 :: int]) 4 4 Axis0 Cut 0 Post
     = Inr [[1, 2, 3, 4], [5, 6, 7, 8]]"
  by (simp add: segment_axis_def Let_def strided_frames_def ndarray_new_def c_contiguous_def
        array_def upt_rec)

section \<open>Properties of the pre-emphasis\<close>

text \<open>
  Claim C10.  For a one-dimensional signal \<open>s\<close> of length \<open>n \<ge> 1\<close> and any coefficient,
  \<open>pre_emphasis\<close> returns a one-dimensional signal of the same length whose first sample
  is \<open>s[0]\<close> and whose sample at every index \<open>t \<ge> 1\<close> is \<open>s[t] - coeff * s[t - 1]\<close>.
\<close>

theorem pre_emphasis_samples:
  assumes "1 \<le> length s"
  shows "\<exists>y. pre_emphasis (Signal1 s) coeff = Inr (Signal1 y)
             \<and> length y = length s
             \<and> y ! 0 = s ! 0
             \<and> (\<forall>t. 1 \<le> t \<and> t < length s \<longrightarrow> y ! t = s ! t - coeff * s ! (t - 1))"
proof -
  let ?y = "hd s # map2 (\<lambda>a b. a - coeff * b) (tl s) (butlast s)"
  have ne: "s \<noteq> []" using assms by auto
  have r: "pre_emphasis (Signal1 s) coeff = Inr (Signal1 ?y)"
    using ne by (simp add: pre_emphasis_def)
  have l: "length ?y = length s" using ne by simp
  have h: "?y ! 0 = s ! 0" using ne by (simp add: hd_conv_nth)
  have t: "?y ! t = s ! t - coeff * s ! (t - 1)" if t1: "1 \<le> t" and t2: "t < length s" for t
  proof -
    obtain u where u: "t = Suc u" using t1 by (cases t) simp_all
    have ul: "u < length s - 1" using t2 u by simp
    have "?y ! t = (tl s) ! u - coeff * (butlast s) ! u"
      using u ul by simp
    also have "(tl s) ! u = s ! t" using u ul by (simp add: nth_tl)
    also have "(butlast s) ! u = s ! (t - 1)" using u ul by (simp add: nth_butlast)
    finally show ?thesis .
  qed
  show ?thesis using r l h t by blast
qed

theorem pre_emphasis_samples_witness:
  "\<exists>y. pre_emphasis (Signal1 [1, 2, 3 :: int]) 2 = Inr (Signal1 y)
       \<and> length y = 3 \<and> y ! 0 = 1 \<and> y ! 1 = 0 \<and> y ! 2 = - 1"
proof -
  obtain y where
    r: "pre_emphasis (Signal1 [1, 2, 3 :: int]) 2 = Inr (Signal1 y)"
    and l: "length y = length [1, 2, 3 :: int]"
    and h: "y ! 0 = [1, 2, 3 :: int] ! 0"
    and t: "\<forall>t. 1 \<le> t \<and> t < length [1, 2, 3 :: int]
               \<longrightarrow> y ! t = [1, 2, 3 :: int] ! t - 2 * [1, 2, 3 :: int] ! (t - 1)"
    using pre_emphasis_samples[of "[1, 2, 3 :: int]" 2] by auto
  have "y ! 1 = 0" using t by simp
  moreover have "y ! 2 = - 1" using t by simp
  ultimately show ?thesis using r l h by simp
qed

section \<open>Properties of the decibel scaling\<close>









section \<open>Properties of the delta kernel\<close>

lemma ramp_squares:
  "3 * (\<Sum>k<2 * m + 1. (int m - int k) ^ 2) = int m * (int m + 1) * (2 * int m + 1)"
proof (induction m)
  case 0
  show ?case by simp
next
  case (Suc m)
  have "(\<Sum>k<2 * Suc m + 1. (int (Suc m) - int k) ^ 2)
          = (\<Sum>k<Suc (Suc (2 * m + 1)). (int (Suc m) - int k) ^ 2)" by simp
  also have "\<dots> = (\<Sum>k<Suc (2 * m + 1). (int (Suc m) - int k) ^ 2)
                    + (int (Suc m) - int (Suc (2 * m + 1))) ^ 2"
    by (rule sum.lessThan_Suc)
  also have "(\<Sum>k<Suc (2 * m + 1). (int (Suc m) - int k) ^ 2)
               = (int (Suc m) - int 0) ^ 2
                 + (\<Sum>k<2 * m + 1. (int (Suc m) - int (Suc k)) ^ 2)"
    by (rule sum.lessThan_Suc_shift)
  also have "(\<Sum>k<2 * m + 1. (int (Suc m) - int (Suc k)) ^ 2)
               = (\<Sum>k<2 * m + 1. (int m - int k) ^ 2)" by simp
  finally have "3 * (\<Sum>k<2 * Suc m + 1. (int (Suc m) - int k) ^ 2)
                  = 3 * (int (Suc m)) ^ 2 + 3 * (\<Sum>k<2 * m + 1. (int m - int k) ^ 2)
                    + 3 * (int (Suc m) - int (Suc (2 * m + 1))) ^ 2"
    by simp
  also have "\<dots> = 3 * (int m + 1) ^ 2 + int m * (int m + 1) * (2 * int m + 1)
                    + 3 * (int m + 1) ^ 2"
    unfolding Suc.IH by (simp add: power2_eq_square algebra_simps)
  also have "\<dots> = int (Suc m) * (int (Suc m) + 1) * (2 * int (Suc m) + 1)"
    by (simp add: power2_eq_square algebra_simps)
  finally show ?case .
qed


lemma arange_down_squares:
  "(\<Sum>v\<leftarrow>arange_down (int m) (- (int m + 1)). \<bar>v\<bar> ^ 2)
     = real_of_int (\<Sum>k<2 * m + 1. (int m - int k) ^ 2)"
proof -
  have n: "nat (int m - - (int m + 1)) = 2 * m + 1" by simp
  have "(\<Sum>v\<leftarrow>arange_down (int m) (- (int m + 1)). \<bar>v\<bar> ^ 2)
          = (\<Sum>k\<leftarrow>[0..<2 * m + 1]. \<bar>real_of_int (int m - int k)\<bar> ^ 2)"
    unfolding arange_down_def n map_map comp_def ..
  also have "\<dots> = (\<Sum>k\<in>set [0..<2 * m + 1]. \<bar>real_of_int (int m - int k)\<bar> ^ 2)"
    by (rule interv_sum_list_conv_sum_set_nat)
  also have "set [0..<2 * m + 1] = {..<2 * m + 1}" by auto
  also have "(\<Sum>k<2 * m + 1. \<bar>real_of_int (int m - int k)\<bar> ^ 2)
               = real_of_int (\<Sum>k<2 * m + 1. (int m - int k) ^ 2)"
    by simp
  finally show ?thesis .
qed

lemma scaled_squares:
  fixes c :: real
  shows "(\<Sum>w\<leftarrow>map (\<lambda>v. v / c) xs. w ^ 2) = (\<Sum>v\<leftarrow>xs. \<bar>v\<bar> ^ 2) / c ^ 2"
  by (induction xs) (simp_all add: power_divide add_divide_distrib)

lemma delta_window_odd:
  assumes "width = 2 * int m + 1" "0 < m"
  shows "half_length width = int m + 1"
    and "length (delta_window width) = 2 * m + 1"
    and "(\<Sum>w\<leftarrow>delta_window width. w ^ 2)
           = 12 / (real_of_int width * (real_of_int width ^ 2 - 1))"
proof -
  show h: "half_length width = int m + 1"
    unfolding half_length_def assms(1) by simp
  have h1: "half_length width - 1 = int m" using h by simp
  have raw: "arange_down (half_length width - 1) (- half_length width)
               = arange_down (int m) (- (int m + 1))"
    using h by simp
  have n: "nat (int m - - (int m + 1)) = 2 * m + 1" by simp
  show "length (delta_window width) = 2 * m + 1"
    unfolding delta_window_def Let_def raw length_map
    unfolding arange_down_def length_map length_upt n by simp
  define c where "c = (\<Sum>k<2 * m + 1. (int m - int k) ^ 2)"
  have c3: "3 * c = int m * (int m + 1) * (2 * int m + 1)"
    unfolding c_def by (rule ramp_squares)
  have cs: "(\<Sum>v\<leftarrow>arange_down (int m) (- (int m + 1)). \<bar>v\<bar> ^ 2) = real_of_int c"
    unfolding c_def by (rule arange_down_squares)
  have "0 < int m * (int m + 1) * (2 * int m + 1)" using assms(2) by simp
  hence cpos: "0 < c" using c3 by linarith
  have "real_of_int width * (real_of_int width ^ 2 - 1)
          = real_of_int ((2 * int m + 1) * ((2 * int m + 1) ^ 2 - 1))"
    unfolding assms(1) by simp
  also have "(2 * int m + 1) * ((2 * int m + 1) ^ 2 - 1)
               = 4 * (int m * (int m + 1) * (2 * int m + 1))"
    by (simp add: power2_eq_square algebra_simps)
  also have "\<dots> = 12 * c" using c3 by simp
  finally have w: "real_of_int width * (real_of_int width ^ 2 - 1) = 12 * real_of_int c"
    by simp
  have "(\<Sum>w\<leftarrow>delta_window width. w ^ 2) = real_of_int c / (real_of_int c) ^ 2"
    unfolding delta_window_def Let_def raw cs scaled_squares ..
  also have "\<dots> = 1 / real_of_int c" using cpos by (simp add: power2_eq_square)
  also have "\<dots> = 12 / (12 * real_of_int c)" by simp
  finally show "(\<Sum>w\<leftarrow>delta_window width. w ^ 2)
                  = 12 / (real_of_int width * (real_of_int width ^ 2 - 1))"
    unfolding w .
qed

text \<open>
  Claim C8 (as amended).  For every odd \<open>width \<ge> 3\<close>, the kernel that \<open>compute_delta\<close>
  builds has half-length \<open>(width + 1) div 2\<close> and \<open>width\<close> entries, and after the
  normalisation its sum of squares is \<open>12 / (width * (width\<^sup>2 - 1))\<close>, the inverse of the
  sum of squares of the ramp \<open>half_length - 1, \<dots>, -(half_length - 1)\<close> it was divided by.
\<close>

theorem delta_window_kernel:
  assumes "3 \<le> width" "width mod 2 = 1"
  shows "half_length width = (width + 1) div 2
       \<and> int (length (delta_window width)) = width
       \<and> (\<Sum>w\<leftarrow>delta_window width. w ^ 2)
           = 12 / (real_of_int width * (real_of_int width ^ 2 - 1))"
proof -
  define m where "m = nat (width div 2)"
  have d0: "0 \<le> width div 2" using assms(1) by simp
  have "width = 2 * (width div 2) + width mod 2" by simp
  hence w: "width = 2 * int m + 1" using assms(2) d0 unfolding m_def by simp
  have "0 < width div 2" using assms(1) by simp
  hence m0: "0 < m" unfolding m_def by simp
  have "(width + 1) div 2 = (2 * (int m + 1)) div 2" using w by simp
  hence "(width + 1) div 2 = int m + 1" by simp
  hence h: "half_length width = (width + 1) div 2"
    using delta_window_odd(1)[OF w m0] by simp
  have l: "int (length (delta_window width)) = width"
    using delta_window_odd(2)[OF w m0] w by simp
  show ?thesis using h l delta_window_odd(3)[OF w m0] by (intro conjI)
qed

theorem delta_window_kernel_witness:
  "half_length 9 = 5 \<and> length (delta_window 9) = 9
   \<and> (\<Sum>w\<leftarrow>delta_window 9. w ^ 2) = 1 / 60"
  using delta_window_kernel[of 9] by simp

text \<open>
  For \<open>width = 3\<close> the kernel is \<open>1/2, 0, -1/2\<close>: its sum of squares is \<open>1/2\<close>, not 1 as
  the claim C8 has it.
\<close>

theorem delta_window_counterexample:
  "delta_window 3 = [1 / 2, 0, - 1 / 2] \<and> (\<Sum>w\<leftarrow>delta_window 3. w ^ 2) = 1 / 2"
  by (simp add: delta_window_def half_length_def arange_down_def upt_rec power2_eq_square)

section \<open>Properties of the delta features\<close>

lemma length_lfilter: "length (lfilter b x) = length x"
  by (simp add: lfilter_def)

lemma length_pad_edge: "length (pad_edge w row) = 2 * w + length row"
  by (simp add: pad_edge_def)

lemma length_slice_from_end:
  assumes "0 \<le> hi" "hi \<le> lo" "lo \<le> int (length xs)"
  shows "length (slice_from_end xs lo hi) = nat (lo - hi)"
proof -
  let ?n = "int (length xs)"
  have a: "max 0 (?n - lo) = ?n - lo" using assms by simp
  have b: "max 0 (?n - hi) = ?n - hi" using assms by simp
  have "nat (?n - hi - (?n - lo)) = nat (lo - hi)" by simp
  moreover have "nat (lo - hi) \<le> length xs - nat (?n - lo)" using assms by linarith
  ultimately show ?thesis
    unfolding slice_from_end_def Let_def a b by simp
qed

text \<open>
  The shape: on a matrix of shape \<open>[d, t]\<close> with \<open>t \<ge> 1\<close>, \<open>width = 9\<close> and \<open>order = 2\<close>
  give two arrays of shape \<open>[d, t]\<close>.
\<close>

lemma compute_delta_shape:
  assumes "\<forall>row\<in>set data. length row = t" "1 \<le> t"
  shows "\<exists>d1 d2. compute_delta data 9 2 True = Inr [d1, d2]
           \<and> length d1 = length data \<and> length d2 = length data
           \<and> (\<forall>row\<in>set d1. length row = t) \<and> (\<forall>row\<in>set d2. length row = t)"
proof -
  define w where "w = delta_window 9"
  define p where "p = map (pad_edge (nat 9)) data"
  define y1 where "y1 = map (lfilter w) p"
  define y2 where "y2 = map (lfilter w) y1"
  define cut where
    "cut = (\<lambda>row :: real list. slice_from_end row (half_length 9 + int (length (hd data)))
                                 (half_length 9))"
  have two: "nat 2 = Suc (Suc 0)" by simp
  have hd_ok: "\<not> (data \<noteq> [] \<and> hd data = [])"
  proof
    assume h: "data \<noteq> [] \<and> hd data = []"
    hence "hd data \<in> set data" by (intro hd_in_set) simp
    hence "length (hd data) = t" using assms(1) by blast
    thus False using h assms(2) by simp
  qed
  have r: "compute_delta data 9 2 True = Inr [map cut y1, map cut y2]"
    unfolding compute_delta_def Let_def two delta_passes.simps
      w_def[symmetric] p_def[symmetric] y1_def[symmetric] y2_def[symmetric] list.map
      cut_def[symmetric]
    using hd_ok by simp
  have lp: "length row = 18 + t" if "row \<in> set p" for row
    using that assms(1) unfolding p_def by (auto simp: length_pad_edge)
  have l1: "length row = 18 + t" if "row \<in> set y1" for row
    using that lp unfolding y1_def by (auto simp: length_lfilter)
  have l2: "length row = 18 + t" if "row \<in> set y2" for row
    using that l1 unfolding y2_def by (auto simp: length_lfilter)
  have lc: "length (cut row) = t" if dn: "data \<noteq> []" and lr: "length row = 18 + t" for row
  proof -
    have "hd data \<in> set data" using dn by (rule hd_in_set)
    hence ht: "length (hd data) = t" using assms(1) by blast
    have h5: "half_length 9 = 5" by (simp add: half_length_def)
    have "length (slice_from_end row (5 + int t) 5) = nat (5 + int t - 5)"
      by (rule length_slice_from_end) (simp_all add: lr)
    thus ?thesis unfolding cut_def h5 ht by simp
  qed
  have dne: "data \<noteq> []" if "row \<in> set y1 \<or> row \<in> set y2" for row
    using that unfolding y2_def y1_def p_def by auto
  have c1: "\<forall>row\<in>set (map cut y1). length row = t"
  proof
    fix row assume "row \<in> set (map cut y1)"
    then obtain x where x: "x \<in> set y1" and rx: "row = cut x" by auto
    show "length row = t" unfolding rx using dne[of x] x l1[OF x] by (intro lc) simp_all
  qed
  have c2: "\<forall>row\<in>set (map cut y2). length row = t"
  proof
    fix row assume "row \<in> set (map cut y2)"
    then obtain x where x: "x \<in> set y2" and rx: "row = cut x" by auto
    show "length row = t" unfolding rx using dne[of x] x l2[OF x] by (intro lc) simp_all
  qed
  have n1: "length (map cut y1) = length data" unfolding y1_def p_def by simp
  have n2: "length (map cut y2) = length data" unfolding y2_def y1_def p_def by simp
  show ?thesis using r n1 n2 c1 c2 by blast
qed

lemma delta_window_9:
  "delta_window 9 = [1 / 15, 1 / 20, 1 / 30, 1 / 60, 0, - 1 / 60, - 1 / 30, - 1 / 20, - 1 / 15]"
  by (simp add: delta_window_def half_length_def arange_down_def upt_rec)

lemma lfilter_ones:
  "lfilter [1 / 15, 1 / 20, 1 / 30, 1 / 60, 0, - 1 / 60, - 1 / 30, - 1 / 20, - 1 / 15]
     (replicate 19 1)
   = [1 / 15, 7 / 60, 3 / 20, 1 / 6, 1 / 6, 3 / 20, 7 / 60, 1 / 15, 0, 0, 0, 0, 0, 0, 0, 0,
      0, 0, 0]"
  by (simp add: lfilter_def upt_rec nth_Cons' nth_append)


lemma lfilter_transient:
  "lfilter [1 / 15, 1 / 20, 1 / 30, 1 / 60, 0, - 1 / 60, - 1 / 30, - 1 / 20, - 1 / 15]
     [1 / 15, 7 / 60, 3 / 20, 1 / 6, 1 / 6, 3 / 20, 7 / 60, 1 / 15, 0, 0, 0, 0, 0, 0, 0, 0,
      0, 0, 0]
   = [1 / 225, 1 / 90, 13 / 720, 17 / 720, 19 / 720, 91 / 3600, 7 / 360, 1 / 120, - 1 / 120,
      - 7 / 360, - 91 / 3600, - 19 / 720, - 17 / 720, - 13 / 720, - 1 / 90, - 1 / 225, 0, 0, 0]"
  by (simp add: lfilter_def upt_rec nth_Cons')

lemma pad_edge_one: "pad_edge (nat 9) [1] = replicate 19 1"
  by (simp add: pad_edge_def replicate_add[symmetric] flip: replicate_Suc replicate_append_same)


lemma compute_delta_constant:
  "compute_delta [[1]] 9 2 True = Inr [[[0]], [[- 13 / 720]]]"
proof -
  have two: "nat 2 = Suc (Suc 0)" by simp
  show ?thesis
    unfolding compute_delta_def Let_def delta_window_9 two delta_passes.simps list.map
      pad_edge_one lfilter_ones lfilter_transient
    by (simp add: slice_from_end_def half_length_def)
qed

lemma pad_edge_impulse:
  "pad_edge (nat 9) [0, 0, 0, 0, 0, 0, 0, 0, 1, 0, 0, 0, 0, 0, 0, 0, 0]
   = [0, 0, 0, 0, 0, 0, 0, 0, 0, 0, 0, 0, 0, 0, 0, 0, 0, 1, 0, 0, 0, 0, 0, 0, 0, 0, 0, 0, 0, 0, 0, 0, 0, 0, 0]"
  by (simp add: pad_edge_def numeral_eq_Suc)

lemma lfilter_impulse:
  "lfilter [1 / 15, 1 / 20, 1 / 30, 1 / 60, 0, - 1 / 60, - 1 / 30, - 1 / 20, - 1 / 15]
     [0, 0, 0, 0, 0, 0, 0, 0, 0, 0, 0, 0, 0, 0, 0, 0, 0, 1, 0, 0, 0, 0, 0, 0, 0, 0, 0, 0, 0, 0, 0, 0, 0, 0, 0]
   = [0, 0, 0, 0, 0, 0, 0, 0, 0, 0, 0, 0, 0, 0, 0, 0, 0, 1 / 15, 1 / 20, 1 / 30, 1 / 60, 0, - 1 / 60, - 1 / 30, - 1 / 20, - 1 / 15, 0, 0, 0, 0, 0, 0, 0, 0, 0]"
  by (simp add: lfilter_def upt_rec nth_Cons')

lemma lfilter_impulse2:
  "lfilter [1 / 15, 1 / 20, 1 / 30, 1 / 60, 0, - 1 / 60, - 1 / 30, - 1 / 20, - 1 / 15]
     [0, 0, 0, 0, 0, 0, 0, 0, 0, 0, 0, 0, 0, 0, 0, 0, 0, 1 / 15, 1 / 20, 1 / 30, 1 / 60, 0, - 1 / 60, - 1 / 30, - 1 / 20, - 1 / 15, 0, 0, 0, 0, 0, 0, 0, 0, 0]
   = [0, 0, 0, 0, 0, 0, 0, 0, 0, 0, 0, 0, 0, 0, 0, 0, 0, 1 / 225, 1 / 150, 1 / 144, 1 / 180, 1 / 360, - 1 / 900, - 7 / 1200, - 1 / 90, - 1 / 60, - 1 / 90, - 7 / 1200, - 1 / 900, 1 / 360, 1 / 180, 1 / 144, 1 / 150, 1 / 225, 0]"
  by (simp add: lfilter_def upt_rec nth_Cons')


text \<open>
  Claim C9.  \<open>compute_delta(data, width=9, order=2, axis=-1, trim=True)\<close> on the matrix
  of shape \<open>[1, 17]\<close> whose row is \<open>0\<close> but for a \<open>1\<close> at index 8.  Two arrays of shape
  \<open>[1, 17]\<close> come back.  The first is aligned with the input: it is antisymmetric about
  index 8, where it is \<open>0\<close>.  The second is not: the delta of the first array is symmetric
  about index 8, where it takes its least value \<open>-1/60\<close>, while the array returned is
  symmetric about index 12 and has \<open>-1/60\<close> there.  Every filter pass delays by
  \<open>half_length - 1 = 4\<close> samples and the trimming takes one delay off, whatever the order.
\<close>

theorem compute_delta_impulse:
  "compute_delta [[0, 0, 0, 0, 0, 0, 0, 0, 1, 0, 0, 0, 0, 0, 0, 0, 0]] 9 2 True
   = Inr [[[0, 0, 0, 0, 1 / 15, 1 / 20, 1 / 30, 1 / 60, 0, - 1 / 60, - 1 / 30, - 1 / 20, - 1 / 15, 0, 0, 0, 0]],
          [[0, 0, 0, 0, 1 / 225, 1 / 150, 1 / 144, 1 / 180, 1 / 360, - 1 / 900, - 7 / 1200, - 1 / 90, - 1 / 60, - 1 / 90, - 7 / 1200, - 1 / 900, 1 / 360]]]"
proof -
  have two: "nat 2 = Suc (Suc 0)" by simp
  show ?thesis
    unfolding compute_delta_def Let_def delta_window_9 two delta_passes.simps list.map
      pad_edge_impulse lfilter_impulse lfilter_impulse2
    by (simp add: slice_from_end_def half_length_def)
qed

end
